theory Spec2Isabelle
  imports Main "HOL-Library.Sublist" "HOL-Library.Multiset" "HOL-Library.Char_ord"
    "HOL-Library.List_Lexorder"
begin

section \<open>The expense ledger of technoxisobbot\<close>

text \<open>
  The development embeds \<^verbatim>\<open>db.py\<close> (the SQLite data access layer) and
  \<^verbatim>\<open>utils.parse_expense_message\<close>. Every function of \<^verbatim>\<open>db.py\<close> opens a
  connection, runs \<^verbatim>\<open>_ensure_schema\<close> and then one SQL statement; the model gives the
  database file as a value, and each SQL statement by its relational meaning on that
  value.

  Scope of the model. Python integers are \<^typ>\<open>int\<close>; a Python string is a list of
  characters, one \<^typ>\<open>char\<close> per code point (code points below 256). The functions of
  \<^verbatim>\<open>db.py\<close> contain no \<^verbatim>\<open>raise\<close>; exceptions that sqlite3 raises for reasons of
  the environment (I/O, locking, the 64-bit range of an SQLite INTEGER) are not part of
  the model, so the store operations are total functions.
\<close>

subsection \<open>Data model\<close>

text \<open>
  One row of the table \<^verbatim>\<open>expenses\<close>. The column \<^verbatim>\<open>id\<close> is named \<open>row_id\<close>
  here. The column \<^verbatim>\<open>category\<close> is the only nullable one.
\<close>

record row =
  row_id :: int
  user_id :: int
  item :: string
  amount :: int
  date :: string
  category :: "string option"

text \<open>
  The table: its column names (what \<^verbatim>\<open>PRAGMA table_info\<close> lists), its rows, and the
  counter that \<^verbatim>\<open>AUTOINCREMENT\<close> keeps in \<^verbatim>\<open>sqlite_sequence\<close> (the largest id ever
  given out). A database file either has the table or not.
\<close>

record table =
  columns :: "string list"
  rows :: "row list"
  autoinc :: int

type_synonym db = "table option"

subsection \<open>Schema manager\<close>

text \<open>\<^verbatim>\<open>CREATE TABLE IF NOT EXISTS expenses (id, user_id, item, amount, date)\<close>\<close>

definition create_table_if_not_exists :: "db \<Rightarrow> table" where
  "create_table_if_not_exists d =
     (case d of
        None \<Rightarrow> \<lparr>columns = [''id'', ''user_id'', ''item'', ''amount'', ''date''],
                 rows = [], autoinc = 0\<rparr>
      | Some t \<Rightarrow> t)"

text \<open>
  \<^verbatim>\<open>ALTER TABLE expenses ADD COLUMN category TEXT\<close>: the column is appended and every
  existing row reads NULL in it.
\<close>

definition add_column_category :: "table \<Rightarrow> table" where
  "add_column_category t =
     t\<lparr>columns := columns t @ [''category''],
       rows := map (\<lambda>r. r\<lparr>category := None\<rparr>) (rows t)\<rparr>"

text \<open>
  \<^verbatim>\<open>_ensure_schema\<close>: create the table when absent, read the column names, add
  \<^verbatim>\<open>category\<close> when it is not among them. The result is the table the rest of the
  connection works on.
\<close>

definition ensure_schema :: "db \<Rightarrow> table" where
  "ensure_schema d =
     (let t = create_table_if_not_exists d;
          cols = set (columns t)
      in if ''category'' \<notin> cols then add_column_category t else t)"

text \<open>\<^verbatim>\<open>_init_db_sync\<close>: ensure the schema and commit.\<close>

definition init_db :: "db \<Rightarrow> db" where
  "init_db d = Some (ensure_schema d)"

subsection \<open>Insert and list\<close>

text \<open>
  The id of a new row: \<^verbatim>\<open>AUTOINCREMENT\<close> takes one more than the largest id that was
  ever in the table, that is one more than the maximum of the counter and the ids
  present.
\<close>

definition next_id :: "table \<Rightarrow> int" where
  "next_id t = fold max (map row_id (rows t)) (autoinc t) + 1"

text \<open>
  \<^verbatim>\<open>INSERT INTO expenses (user_id, item, amount, date, category) VALUES (?, ?, ?, ?, ?)\<close>
\<close>

definition insert_row :: "table \<Rightarrow> int \<Rightarrow> string \<Rightarrow> int \<Rightarrow> string \<Rightarrow> string option \<Rightarrow> table" where
  "insert_row t u it am dt cat =
     (let i = next_id t
      in t\<lparr>rows := rows t @ [\<lparr>row_id = i, user_id = u, item = it, amount = am,
                                date = dt, category = cat\<rparr>],
           autoinc := i\<rparr>)"

text \<open>
  \<^verbatim>\<open>_add_expense_sync\<close>: ensure the schema, insert, commit. Nothing is checked before
  the insert.
\<close>

definition add_expense :: "db \<Rightarrow> int \<Rightarrow> string \<Rightarrow> int \<Rightarrow> string \<Rightarrow> string option \<Rightarrow> db" where
  "add_expense d u it am dt cat = Some (insert_row (ensure_schema d) u it am dt cat)"

text \<open>\<^verbatim>\<open>... WHERE user_id = ? ORDER BY id ASC\<close>, as rows.\<close>

definition select_user_by_id :: "table \<Rightarrow> int \<Rightarrow> row list" where
  "select_user_by_id t u = sort_key row_id (filter (\<lambda>r. user_id r = u) (rows t))"

text \<open>
  \<^verbatim>\<open>_get_all_expenses_sync\<close>: the triples \<^verbatim>\<open>(item, amount, date)\<close> of the user's rows,
  by ascending id.
\<close>

definition get_all_expenses :: "db \<Rightarrow> int \<Rightarrow> (string \<times> int \<times> string) list" where
  "get_all_expenses d u =
     map (\<lambda>r. (item r, amount r, date r)) (select_user_by_id (ensure_schema d) u)"

subsection \<open>Python number formatting and SQL LIKE\<close>









subsection \<open>Monthly aggregates\<close>










subsection \<open>Last record and deletion\<close>

text \<open>
  \<^verbatim>\<open>_get_last_expense_sync\<close>: \<^verbatim>\<open>ORDER BY id DESC LIMIT 1\<close>, \<^verbatim>\<open>fetchone\<close>, and
  \<^verbatim>\<open>None\<close> when there is no row.
\<close>

definition get_last_expense :: "db \<Rightarrow> int \<Rightarrow> (int \<times> string \<times> int \<times> string \<times> string option) option" where
  "get_last_expense d u =
     (case sort_key (\<lambda>r. - row_id r) (filter (\<lambda>r. user_id r = u) (rows (ensure_schema d))) of
        [] \<Rightarrow> None
      | r # _ \<Rightarrow> Some (row_id r, item r, amount r, date r, category r))"

text \<open>
  \<^verbatim>\<open>_delete_expense_sync\<close>: \<^verbatim>\<open>DELETE FROM expenses WHERE user_id = ? AND id = ?\<close>;
  the result is \<^verbatim>\<open>cur.rowcount or 0\<close>, the number of rows deleted, with the database
  after the commit.
\<close>

definition delete_where :: "(row \<Rightarrow> bool) \<Rightarrow> table \<Rightarrow> int \<times> table" where
  "delete_where P t =
     (let rowcount = int (length (filter P (rows t)))
      in (if rowcount = 0 then 0 else rowcount, t\<lparr>rows := filter (\<lambda>r. \<not> P r) (rows t)\<rparr>))"

definition delete_expense :: "db \<Rightarrow> int \<Rightarrow> int \<Rightarrow> int \<times> db" where
  "delete_expense d u expense_id =
     (let (n, t) = delete_where (\<lambda>r. user_id r = u \<and> row_id r = expense_id) (ensure_schema d)
      in (n, Some t))"

text \<open>\<^verbatim>\<open>_delete_all_expenses_sync\<close>: \<^verbatim>\<open>DELETE FROM expenses WHERE user_id = ?\<close>\<close>

definition delete_all_expenses :: "db \<Rightarrow> int \<Rightarrow> int \<times> db" where
  "delete_all_expenses d u =
     (let (n, t) = delete_where (\<lambda>r. user_id r = u) (ensure_schema d)
      in (n, Some t))"

text \<open>The rows that an operation on the database sees, after its \<^verbatim>\<open>_ensure_schema\<close>.\<close>

definition db_rows :: "db \<Rightarrow> row list" where
  "db_rows d = rows (ensure_schema d)"

text \<open>\<^verbatim>\<open>id INTEGER PRIMARY KEY\<close>: no two rows of a table share an id.\<close>

definition primary_key_ok :: "db \<Rightarrow> bool" where
  "primary_key_ok d = (case d of None \<Rightarrow> True | Some t \<Rightarrow> distinct (map row_id (rows t)))"

subsection \<open>Parsing a message\<close>

text \<open>
  The character classes of Python on code points below 256. \<^verbatim>\<open>str.isspace\<close> (which
  \<^verbatim>\<open>strip\<close> and \<^verbatim>\<open>split\<close> use) holds for 9 to 13, 28 to 32, 133 and 160.
  \<^verbatim>\<open>str.isdigit\<close> holds for the decimal digits and for the superscripts 178, 179 and
  185, which \<^verbatim>\<open>int\<close> does not accept.
\<close>

definition py_isspace :: "char \<Rightarrow> bool" where
  "py_isspace c =
     (let k = (of_char c :: nat)
      in (9 \<le> k \<and> k \<le> 13) \<or> (28 \<le> k \<and> k \<le> 32) \<or> k = 133 \<or> k = 160)"

definition is_decimal :: "char \<Rightarrow> bool" where
  "is_decimal c = (let k = (of_char c :: nat) in 48 \<le> k \<and> k \<le> 57)"

definition py_isdigit_char :: "char \<Rightarrow> bool" where
  "py_isdigit_char c =
     (let k = (of_char c :: nat) in (48 \<le> k \<and> k \<le> 57) \<or> k = 178 \<or> k = 179 \<or> k = 185)"

text \<open>\<^verbatim>\<open>s.isdigit()\<close>: at least one character, and all of them digits.\<close>

definition py_isdigit :: "string \<Rightarrow> bool" where
  "py_isdigit s = (s \<noteq> [] \<and> list_all py_isdigit_char s)"

text \<open>\<^verbatim>\<open>s.strip()\<close>\<close>

definition py_strip :: "string \<Rightarrow> string" where
  "py_strip s = rev (dropWhile py_isspace (rev (dropWhile py_isspace s)))"

text \<open>
  \<^verbatim>\<open>s.split()\<close>: the maximal runs of characters that are not whitespace. The first
  argument holds the run being read, reversed.
\<close>

fun split_from :: "string \<Rightarrow> string \<Rightarrow> string list" where
  "split_from cur [] = (if cur = [] then [] else [rev cur])"
| "split_from cur (c # cs) =
     (if py_isspace c then (if cur = [] then split_from [] cs else rev cur # split_from [] cs)
      else split_from (c # cur) cs)"

definition py_split :: "string \<Rightarrow> string list" where
  "py_split s = split_from [] s"

text \<open>\<^verbatim>\<open>sep.join(parts)\<close>\<close>

fun py_join :: "string \<Rightarrow> string list \<Rightarrow> string" where
  "py_join sep [] = []"
| "py_join sep [x] = x"
| "py_join sep (x # y # ys) = x @ sep @ py_join sep (y # ys)"

text \<open>
  The six places where \<^verbatim>\<open>parse_expense_message\<close> can raise \<^verbatim>\<open>ValueError\<close>: its
  five \<^verbatim>\<open>raise\<close> statements in the order of the source, and the call of \<^verbatim>\<open>int\<close>.
\<close>

datatype value_error =
  EmptyText | BadFormat | AmountNotInteger | InvalidLiteral | NegativeAmount | MissingItem

definition digit_val :: "char \<Rightarrow> nat" where
  "digit_val c = of_char c - 48"

definition dec_val :: "string \<Rightarrow> nat" where
  "dec_val s = foldl (\<lambda>a c. 10 * a + digit_val c) 0 s"

text \<open>
  \<^verbatim>\<open>int(s)\<close> on a string without whitespace, sign or underscore (every string that
  passed \<^verbatim>\<open>isdigit\<close>): the value when all characters are decimal digits, otherwise
  \<^verbatim>\<open>ValueError\<close>.
\<close>

definition py_int :: "string \<Rightarrow> value_error + int" where
  "py_int s =
     (if s \<noteq> [] \<and> list_all is_decimal s then Inr (int (dec_val s)) else Inl InvalidLiteral)"

definition parse_expense_message :: "string \<Rightarrow> value_error + (string \<times> int)" where
  "parse_expense_message text =
     (let s = py_strip text in
      if s = [] then Inl EmptyText
      else
        let parts = py_split s in
        if length parts < 2 then Inl BadFormat
        else
          let amount_str = last parts;
              item_str = py_strip (py_join '' '' (butlast parts))
          in if \<not> py_isdigit amount_str then Inl AmountNotInteger
             else
               (case py_int amount_str of
                  Inl e \<Rightarrow> Inl e
                | Inr amount_int \<Rightarrow>
                    if amount_int < 0 then Inl NegativeAmount
                    else if item_str = [] then Inl MissingItem
                    else Inr (item_str, amount_int)))"


subsection \<open>Reachable databases\<close>

text \<open>
  The databases the bot can produce from a fresh file: \<^verbatim>\<open>main\<close> calls
  \<^verbatim>\<open>init_db\<close>; \<^verbatim>\<open>handle_expense_message\<close> stores what
  \<^verbatim>\<open>parse_expense_message\<close> returned, with today's date and no category;
  \<^verbatim>\<open>cmd_undo\<close> deletes one row by id; \<^verbatim>\<open>cmd_clear\<close> deletes all rows of the
  user. (A query leaves the ensured schema behind, as \<^verbatim>\<open>init_db\<close> does.)
\<close>

inductive reachable :: "db \<Rightarrow> bool" where
  fresh: "reachable None"
| init: "reachable d \<Longrightarrow> reachable (init_db d)"
| stored: "reachable d \<Longrightarrow> parse_expense_message text = Inr (it, am) \<Longrightarrow>
     reachable (add_expense d u it am today None)"
| undone: "reachable d \<Longrightarrow> reachable (snd (delete_expense d u expense_id))"
| cleared: "reachable d \<Longrightarrow> reachable (snd (delete_all_expenses d u))"

section \<open>Properties\<close>

subsection \<open>What each operation does to the schema and the rows\<close>

lemma category_ensured: "''category'' \<in> set (columns (ensure_schema d))"
  by (simp add: ensure_schema_def Let_def add_column_category_def)

lemma ensure_schema_present:
  "''category'' \<in> set (columns t) \<Longrightarrow> ensure_schema (Some t) = t"
  by (simp add: ensure_schema_def create_table_if_not_exists_def)

lemma ensure_schema_idem: "ensure_schema (Some (ensure_schema d)) = ensure_schema d"
  by (rule ensure_schema_present) (rule category_ensured)

lemma init_db_idem: "init_db (init_db d) = init_db d"
  by (simp add: init_db_def ensure_schema_idem)

lemma init_db_funpow: "(init_db ^^ Suc n) d = init_db d"
  by (induction n) (simp_all add: init_db_idem)

lemma db_rows_Some_ensured [simp]: "db_rows (Some (ensure_schema d)) = db_rows d"
  by (simp add: db_rows_def ensure_schema_idem)

lemma columns_insert_row [simp]: "columns (insert_row t u it am dt cat) = columns t"
  by (simp add: insert_row_def Let_def)

lemma ensure_schema_add_expense:
  "ensure_schema (add_expense d u it am dt cat) = insert_row (ensure_schema d) u it am dt cat"
  unfolding add_expense_def by (rule ensure_schema_present) (simp add: category_ensured)

lemma columns_delete_where [simp]: "columns (snd (delete_where P t)) = columns t"
  by (simp add: delete_where_def Let_def)

lemma rows_delete_where [simp]: "rows (snd (delete_where P t)) = filter (\<lambda>r. \<not> P r) (rows t)"
  by (simp add: delete_where_def Let_def)

lemma fst_delete_where [simp]: "fst (delete_where P t) = int (length (filter P (rows t)))"
  by (simp add: delete_where_def Let_def)

lemma ensure_schema_delete_expense:
  "ensure_schema (snd (delete_expense d u i)) =
     snd (delete_where (\<lambda>r. user_id r = u \<and> row_id r = i) (ensure_schema d))"
  unfolding delete_expense_def
  by (simp add: split_beta ensure_schema_present category_ensured)

lemma ensure_schema_delete_all:
  "ensure_schema (snd (delete_all_expenses d u)) =
     snd (delete_where (\<lambda>r. user_id r = u) (ensure_schema d))"
  unfolding delete_all_expenses_def
  by (simp add: split_beta ensure_schema_present category_ensured)

lemma db_rows_add_expense:
  "db_rows (add_expense d u it am dt cat) =
     db_rows d @ [\<lparr>row_id = next_id (ensure_schema d), user_id = u, item = it, amount = am,
                   date = dt, category = cat\<rparr>]"
  by (simp add: db_rows_def ensure_schema_add_expense insert_row_def Let_def)

lemma db_rows_delete_expense:
  "db_rows (snd (delete_expense d u i)) =
     filter (\<lambda>r. \<not> (user_id r = u \<and> row_id r = i)) (db_rows d)"
  by (simp add: db_rows_def ensure_schema_delete_expense)

lemma db_rows_delete_all:
  "db_rows (snd (delete_all_expenses d u)) = filter (\<lambda>r. user_id r \<noteq> u) (db_rows d)"
  by (simp add: db_rows_def ensure_schema_delete_all)

lemma fst_delete_expense:
  "fst (delete_expense d u i) = int (length (filter (\<lambda>r. user_id r = u \<and> row_id r = i) (db_rows d)))"
  by (simp add: delete_expense_def split_beta db_rows_def)

lemma fst_delete_all:
  "fst (delete_all_expenses d u) = int (length (filter (\<lambda>r. user_id r = u) (db_rows d)))"
  by (simp add: delete_all_expenses_def split_beta db_rows_def)

lemma columns_fresh:
  "columns (ensure_schema None) = [''id'', ''user_id'', ''item'', ''amount'', ''date'', ''category'']"
  by (simp add: ensure_schema_def create_table_if_not_exists_def add_column_category_def)

lemma columns_existing:
  "columns (ensure_schema (Some t)) =
     (if ''category'' \<in> set (columns t) then columns t else columns t @ [''category''])"
  by (simp add: ensure_schema_def create_table_if_not_exists_def add_column_category_def)

subsection \<open>Insert and list\<close>

lemma fold_max_ge_init: "(a::int) \<le> fold max xs a"
proof (induction xs arbitrary: a)
  case Nil
  show ?case by simp
next
  case (Cons x xs)
  have "a \<le> max x a" by simp
  also have "\<dots> \<le> fold max xs (max x a)" by (rule Cons.IH)
  finally show ?case by simp
qed

lemma fold_max_ge_elem: "x \<in> set xs \<Longrightarrow> (x::int) \<le> fold max xs a"
proof (induction xs arbitrary: a)
  case Nil
  then show ?case by simp
next
  case (Cons y ys)
  show ?case
  proof (cases "x = y")
    case True
    have "x \<le> max y a" using True by simp
    also have "\<dots> \<le> fold max ys (max y a)" by (rule fold_max_ge_init)
    finally show ?thesis by simp
  next
    case False
    with Cons.prems have "x \<in> set ys" by simp
    then show ?thesis using Cons.IH by simp
  qed
qed

lemma next_id_above: "r \<in> set (rows t) \<Longrightarrow> row_id r < next_id t"
  using fold_max_ge_elem [of "row_id r" "map row_id (rows t)" "autoinc t"]
  by (simp add: next_id_def)

lemma next_id_above_autoinc: "autoinc t < next_id t"
  using fold_max_ge_init [of "autoinc t" "map row_id (rows t)"]
  by (simp add: next_id_def)

lemma insort_key_last:
  "\<forall>y \<in> set ys. f y \<le> f x \<Longrightarrow> f a \<le> f x \<Longrightarrow>
     insort_key f a (ys @ [x]) = insort_key f a ys @ [x]"
  by (induction ys) auto

lemma sort_key_snoc:
  "\<forall>y \<in> set xs. f y \<le> f x \<Longrightarrow> sort_key f (xs @ [x]) = sort_key f xs @ [x]"
proof (induction xs)
  case Nil
  show ?case by simp
next
  case (Cons a xs)
  then have ih: "sort_key f (xs @ [x]) = sort_key f xs @ [x]" by simp
  have "\<forall>y \<in> set (sort_key f xs). f y \<le> f x" using Cons.prems by simp
  moreover have "f a \<le> f x" using Cons.prems by simp
  ultimately show ?case using ih by (simp add: insort_key_last)
qed

lemma select_user_by_id_insert_same:
  "select_user_by_id (insert_row t u it am dt cat) u =
     select_user_by_id t u @
       [\<lparr>row_id = next_id t, user_id = u, item = it, amount = am, date = dt, category = cat\<rparr>]"
proof -
  let ?new = "\<lparr>row_id = next_id t, user_id = u, item = it, amount = am, date = dt, category = cat\<rparr>"
  have "\<forall>y \<in> set (filter (\<lambda>r. user_id r = u) (rows t)). row_id y \<le> row_id ?new"
    using next_id_above [of _ t] by fastforce
  then show ?thesis
    by (simp add: select_user_by_id_def insert_row_def Let_def sort_key_snoc)
qed

lemma select_user_by_id_insert_other:
  "u' \<noteq> u \<Longrightarrow> select_user_by_id (insert_row t u it am dt cat) u' = select_user_by_id t u'"
  by (simp add: select_user_by_id_def insert_row_def Let_def)

lemma get_all_expenses_add_same:
  "get_all_expenses (add_expense d u it am dt cat) u = get_all_expenses d u @ [(it, am, dt)]"
  by (simp add: get_all_expenses_def ensure_schema_add_expense select_user_by_id_insert_same)

lemma get_all_expenses_add_other:
  "u' \<noteq> u \<Longrightarrow> get_all_expenses (add_expense d u it am dt cat) u' = get_all_expenses d u'"
  by (simp add: get_all_expenses_def ensure_schema_add_expense select_user_by_id_insert_other)




lemma get_all_expenses_fresh: "get_all_expenses None u = []"
  by (simp add: get_all_expenses_def select_user_by_id_def ensure_schema_def
      create_table_if_not_exists_def add_column_category_def)



subsection \<open>Inserts are not checked by the store\<close>

lemma get_all_expenses_rows:
  "get_all_expenses d u =
     map (\<lambda>r. (item r, amount r, date r)) (sort_key row_id (filter (\<lambda>r. user_id r = u) (db_rows d)))"
  by (simp add: get_all_expenses_def select_user_by_id_def db_rows_def)

lemma length_get_all_expenses:
  "length (get_all_expenses d u) = length (filter (\<lambda>r. user_id r = u) (db_rows d))"
  by (simp add: get_all_expenses_rows)




subsection \<open>Idempotence of the schema manager\<close>

text \<open>
  Claim C9. \<^verbatim>\<open>_ensure_schema\<close> is idempotent: run on its own result it changes
  nothing, and any number of \<^verbatim>\<open>init_db\<close> calls leave what one call leaves. On a fresh
  file it creates the table with the five mandatory columns and \<^verbatim>\<open>category\<close>; on an
  existing table it keeps the columns and adds \<^verbatim>\<open>category\<close> only when the column
  list does not have it; a table that has the column is returned as it is.
\<close>

theorem ensure_schema_idempotent:
  "ensure_schema (Some (ensure_schema d)) = ensure_schema d
   \<and> (init_db ^^ Suc n) d = init_db d
   \<and> columns (ensure_schema None)
       = [''id'', ''user_id'', ''item'', ''amount'', ''date'', ''category'']
   \<and> columns (ensure_schema (Some t))
       = (if ''category'' \<in> set (columns t) then columns t else columns t @ [''category''])
   \<and> (''category'' \<in> set (columns t) \<longrightarrow> ensure_schema (Some t) = t)"
  by (simp add: ensure_schema_idem init_db_funpow columns_fresh columns_existing
      ensure_schema_present del: funpow.simps)

theorem ensure_schema_idempotent_witness:
  "''category'' \<in> set (columns (ensure_schema None))
   \<and> ensure_schema (Some (ensure_schema None)) = ensure_schema None
   \<and> (init_db ^^ 3) None = init_db None"
proof -
  have h: "''category'' \<in> set (columns (ensure_schema None))" by (simp add: columns_fresh)
  note t = ensure_schema_idempotent [of None 2 "ensure_schema None"]
  from t h have a: "ensure_schema (Some (ensure_schema None)) = ensure_schema None" by blast
  from t have "(init_db ^^ Suc 2) None = init_db None" by blast
  then have b: "(init_db ^^ 3) None = init_db None" by (simp add: numeral_3_eq_3)
  from h a b show ?thesis by blast
qed

subsection \<open>Deleting all records of a user\<close>

text \<open>
  Claim C6. \<^verbatim>\<open>delete_all_expenses\<close> returns the number of the user's records and
  leaves the user's list empty; called again at once it returns 0; the rows and the list
  of every other user stay as they were.
\<close>

theorem delete_all_counts:
  "fst (delete_all_expenses d u) = int (length (get_all_expenses d u))
   \<and> get_all_expenses (snd (delete_all_expenses d u)) u = []
   \<and> fst (delete_all_expenses (snd (delete_all_expenses d u)) u) = 0
   \<and> filter (\<lambda>r. user_id r \<noteq> u) (db_rows (snd (delete_all_expenses d u)))
       = filter (\<lambda>r. user_id r \<noteq> u) (db_rows d)
   \<and> (u' \<noteq> u \<longrightarrow>
        get_all_expenses (snd (delete_all_expenses d u)) u' = get_all_expenses d u')"
proof (intro conjI)
  show "fst (delete_all_expenses d u) = int (length (get_all_expenses d u))"
    by (simp add: fst_delete_all length_get_all_expenses)
  show "get_all_expenses (snd (delete_all_expenses d u)) u = []"
    by (simp add: get_all_expenses_rows db_rows_delete_all)
  show "fst (delete_all_expenses (snd (delete_all_expenses d u)) u) = 0"
    by (simp add: fst_delete_all db_rows_delete_all)
  show "filter (\<lambda>r. user_id r \<noteq> u) (db_rows (snd (delete_all_expenses d u)))
       = filter (\<lambda>r. user_id r \<noteq> u) (db_rows d)"
    by (simp add: db_rows_delete_all)
  show "u' \<noteq> u \<longrightarrow>
        get_all_expenses (snd (delete_all_expenses d u)) u' = get_all_expenses d u'"
  proof
    assume ne: "u' \<noteq> u"
    have "filter (\<lambda>r. user_id r = u') (filter (\<lambda>r. user_id r \<noteq> u) (db_rows d))
            = filter (\<lambda>r. user_id r = u') (db_rows d)"
      using ne by (auto intro: filter_cong)
    then show "get_all_expenses (snd (delete_all_expenses d u)) u' = get_all_expenses d u'"
      by (simp only: get_all_expenses_rows db_rows_delete_all)
  qed
qed

theorem delete_all_counts_witness:
  "(2::int) \<noteq> 1
   \<and> fst (delete_all_expenses
            (add_expense (add_expense None 1 ''bread'' 5000 ''2024-03-01'' None)
               2 ''rent'' 500000 ''2024-04-01'' None) 1) = 1
   \<and> get_all_expenses (snd (delete_all_expenses
            (add_expense (add_expense None 1 ''bread'' 5000 ''2024-03-01'' None)
               2 ''rent'' 500000 ''2024-04-01'' None) 1)) 2 = [(''rent'', 500000, ''2024-04-01'')]"
proof -
  let ?d = "add_expense (add_expense None 1 ''bread'' 5000 ''2024-03-01'' None)
               2 ''rent'' 500000 ''2024-04-01'' None"
  have h: "(2::int) \<noteq> 1" by simp
  have l1: "get_all_expenses ?d 1 = [(''bread'', 5000, ''2024-03-01'')]"
    by (simp add: get_all_expenses_add_same get_all_expenses_add_other get_all_expenses_fresh)
  have l2: "get_all_expenses ?d 2 = [(''rent'', 500000, ''2024-04-01'')]"
    by (simp add: get_all_expenses_add_same get_all_expenses_add_other get_all_expenses_fresh)
  note t = delete_all_counts [of ?d 1 2]
  from t have a: "fst (delete_all_expenses ?d 1) = int (length (get_all_expenses ?d 1))"
    by (rule conjunct1)
  from t h have b: "get_all_expenses (snd (delete_all_expenses ?d 1)) 2 = get_all_expenses ?d 2"
    by blast
  from a b l1 l2 h show ?thesis by simp
qed

subsection \<open>Deleting one record by id\<close>

lemma primary_key_rows: "primary_key_ok d \<Longrightarrow> distinct (map row_id (db_rows d))"
  by (cases d)
    (simp_all add: primary_key_ok_def db_rows_def ensure_schema_def
      create_table_if_not_exists_def add_column_category_def Let_def comp_def)

lemma primary_key_of_rows: "distinct (map row_id (db_rows d)) \<Longrightarrow> primary_key_ok (Some (ensure_schema d))"
  by (simp add: primary_key_ok_def db_rows_def)

lemma primary_key_init: "primary_key_ok d \<Longrightarrow> primary_key_ok (init_db d)"
  by (simp add: init_db_def primary_key_of_rows primary_key_rows)

lemma primary_key_add:
  assumes "primary_key_ok d"
  shows "primary_key_ok (add_expense d u it am dt cat)"
proof -
  have "distinct (map row_id (rows (ensure_schema d)))"
    using primary_key_rows [OF assms] by (simp add: db_rows_def)
  moreover have "next_id (ensure_schema d) \<notin> row_id ` set (rows (ensure_schema d))"
    using next_id_above [of _ "ensure_schema d"] by fastforce
  ultimately show ?thesis
    by (simp add: add_expense_def primary_key_ok_def insert_row_def Let_def)
qed

lemma primary_key_delete_where:
  "distinct (map row_id (rows t)) \<Longrightarrow> distinct (map row_id (rows (snd (delete_where P t))))"
  by (simp add: distinct_map_filter)

lemma primary_key_delete:
  "primary_key_ok d \<Longrightarrow> primary_key_ok (snd (delete_expense d u i))"
  using primary_key_rows [of d]
  by (simp add: delete_expense_def split_beta primary_key_ok_def db_rows_def distinct_map_filter)

lemma primary_key_delete_all:
  "primary_key_ok d \<Longrightarrow> primary_key_ok (snd (delete_all_expenses d u))"
  using primary_key_rows [of d]
  by (simp add: delete_all_expenses_def split_beta primary_key_ok_def db_rows_def
      distinct_map_filter)

lemma reachable_primary_key: "reachable d \<Longrightarrow> primary_key_ok d"
proof (induction rule: reachable.induct)
  case fresh
  show ?case by (simp add: primary_key_ok_def)
qed (simp_all add: primary_key_init primary_key_add primary_key_delete primary_key_delete_all)

lemma at_most_one_with_key:
  "distinct (map f xs) \<Longrightarrow> length (filter (\<lambda>x. P x \<and> f x = i) xs) \<le> 1"
proof (induction xs)
  case Nil
  show ?case by simp
next
  case (Cons a xs)
  show ?case
  proof (cases "f a = i")
    case True
    then have "i \<notin> f ` set xs" using Cons.prems by simp
    then have "filter (\<lambda>x. P x \<and> f x = i) xs = []"
      by (auto simp: filter_empty_conv)
    then show ?thesis by simp
  next
    case False
    then show ?thesis using Cons by simp
  qed
qed

lemma no_other_with_key:
  assumes "distinct (map f xs)" "r \<in> set xs" "\<not> P r"
  shows "filter (\<lambda>x. P x \<and> f x = f r) xs = []"
proof -
  have "inj_on f (set xs)" using assms(1) by (simp add: distinct_map)
  then have "\<And>x. x \<in> set xs \<Longrightarrow> f x = f r \<Longrightarrow> x = r"
    using assms(2) by (auto dest: inj_onD)
  then show ?thesis using assms(3) by (auto simp: filter_empty_conv)
qed

lemma length_filter_partition:
  "length xs = length (filter (\<lambda>x. \<not> P x) xs) + length (filter P xs)"
  using sum_length_filter_compl [of P xs] by simp

text \<open>
  Claim C5. In a table with its primary key (no two rows share an id):
  \<^verbatim>\<open>delete_expense\<close> called by a user who does not own the record with that id returns
  0 and leaves all rows as they are; in general it returns 0 or 1, removes exactly the
  rows that have this id and belong to the caller, and the number of rows goes down by
  the count returned.
\<close>

theorem delete_by_id_scoped:
  assumes "primary_key_ok d"
  shows "(r \<in> set (db_rows d) \<and> user_id r \<noteq> b \<longrightarrow>
           fst (delete_expense d b (row_id r)) = 0
           \<and> db_rows (snd (delete_expense d b (row_id r))) = db_rows d)
       \<and> (fst (delete_expense d u i) = 0 \<or> fst (delete_expense d u i) = 1)
       \<and> db_rows (snd (delete_expense d u i))
           = filter (\<lambda>r. \<not> (user_id r = u \<and> row_id r = i)) (db_rows d)
       \<and> int (length (db_rows d))
           = int (length (db_rows (snd (delete_expense d u i)))) + fst (delete_expense d u i)"
proof (intro conjI)
  have dist: "distinct (map row_id (db_rows d))" by (rule primary_key_rows [OF assms])
  show "r \<in> set (db_rows d) \<and> user_id r \<noteq> b \<longrightarrow>
           fst (delete_expense d b (row_id r)) = 0
           \<and> db_rows (snd (delete_expense d b (row_id r))) = db_rows d"
  proof
    assume a: "r \<in> set (db_rows d) \<and> user_id r \<noteq> b"
    have e: "filter (\<lambda>x. user_id x = b \<and> row_id x = row_id r) (db_rows d) = []"
      using no_other_with_key [OF dist, of r "\<lambda>x. user_id x = b"] a by simp
    then have "filter (\<lambda>x. \<not> (user_id x = b \<and> row_id x = row_id r)) (db_rows d) = db_rows d"
      by (simp add: filter_empty_conv filter_id_conv)
    with e show "fst (delete_expense d b (row_id r)) = 0
           \<and> db_rows (snd (delete_expense d b (row_id r))) = db_rows d"
      by (simp add: fst_delete_expense db_rows_delete_expense)
  qed
  have "length (filter (\<lambda>x. user_id x = u \<and> row_id x = i) (db_rows d)) \<le> 1"
    by (rule at_most_one_with_key [OF dist])
  then have "length (filter (\<lambda>x. user_id x = u \<and> row_id x = i) (db_rows d)) = 0
      \<or> length (filter (\<lambda>x. user_id x = u \<and> row_id x = i) (db_rows d)) = 1"
    by linarith
  then show "fst (delete_expense d u i) = 0 \<or> fst (delete_expense d u i) = 1"
    by (auto simp: fst_delete_expense)
  show "db_rows (snd (delete_expense d u i))
           = filter (\<lambda>r. \<not> (user_id r = u \<and> row_id r = i)) (db_rows d)"
    by (rule db_rows_delete_expense)
  show "int (length (db_rows d))
           = int (length (db_rows (snd (delete_expense d u i)))) + fst (delete_expense d u i)"
    using length_filter_partition [of "db_rows d" "\<lambda>r. user_id r = u \<and> row_id r = i"]
    by (simp add: fst_delete_expense db_rows_delete_expense)
qed


lemma db_rows_fresh: "db_rows None = []"
  by (simp add: db_rows_def ensure_schema_def create_table_if_not_exists_def
      add_column_category_def)

lemma next_id_fresh: "next_id (ensure_schema None) = 1"
  by (simp add: next_id_def ensure_schema_def create_table_if_not_exists_def
      add_column_category_def)

theorem delete_by_id_scoped_witness:
  "primary_key_ok (add_expense None 1 ''bread'' 5000 ''2024-03-01'' None)
   \<and> db_rows (add_expense None 1 ''bread'' 5000 ''2024-03-01'' None)
       = [\<lparr>row_id = 1, user_id = 1, item = ''bread'', amount = 5000,
            date = ''2024-03-01'', category = None\<rparr>]
   \<and> fst (delete_expense (add_expense None 1 ''bread'' 5000 ''2024-03-01'' None) 2 1) = 0
   \<and> db_rows (snd (delete_expense (add_expense None 1 ''bread'' 5000 ''2024-03-01'' None) 2 1))
       = db_rows (add_expense None 1 ''bread'' 5000 ''2024-03-01'' None)"
proof -
  let ?d = "add_expense None 1 ''bread'' 5000 ''2024-03-01'' None"
  let ?r = "\<lparr>row_id = 1, user_id = 1, item = ''bread'', amount = 5000,
            date = ''2024-03-01'', category = None\<rparr>"
  have pk: "primary_key_ok ?d"
    by (rule primary_key_add) (simp add: primary_key_ok_def)
  have rs: "db_rows ?d = [?r]"
    by (simp add: db_rows_add_expense db_rows_fresh next_id_fresh)
  have h: "?r \<in> set (db_rows ?d) \<and> user_id ?r \<noteq> 2" by (simp add: rs)
  from delete_by_id_scoped [OF pk, of ?r 2] h
  have "fst (delete_expense ?d 2 (row_id ?r)) = 0
        \<and> db_rows (snd (delete_expense ?d 2 (row_id ?r))) = db_rows ?d"
    by blast
  then have "fst (delete_expense ?d 2 1) = 0
        \<and> db_rows (snd (delete_expense ?d 2 1)) = db_rows ?d"
    by simp
  with pk rs show ?thesis by blast
qed

subsection \<open>The last record\<close>

lemma sort_key_snoc_least:
  "\<forall>y \<in> set xs. f x < f y \<Longrightarrow> sort_key f (xs @ [x]) = x # sort_key f xs"
proof (induction xs)
  case Nil
  show ?case by simp
next
  case (Cons a xs)
  then have "sort_key f (xs @ [x]) = x # sort_key f xs" by simp
  moreover have "f x < f a" using Cons.prems by simp
  then have "\<not> f a \<le> f x" by (simp only: not_le)
  ultimately show ?case by simp
qed

lemma get_last_expense_rows:
  "get_last_expense d u =
     (case sort_key (\<lambda>r. - row_id r) (filter (\<lambda>r. user_id r = u) (db_rows d)) of
        [] \<Rightarrow> None
      | r # _ \<Rightarrow> Some (row_id r, item r, amount r, date r, category r))"
  by (simp add: get_last_expense_def db_rows_def)

lemma get_last_expense_cong: "db_rows d = db_rows d' \<Longrightarrow> get_last_expense d u = get_last_expense d' u"
  by (simp add: get_last_expense_rows)

lemma get_last_expense_add:
  "get_last_expense (add_expense d u it am dt cat) u
     = Some (next_id (ensure_schema d), it, am, dt, cat)"
proof -
  let ?new = "\<lparr>row_id = next_id (ensure_schema d), user_id = u, item = it, amount = am,
                date = dt, category = cat\<rparr>"
  let ?old = "filter (\<lambda>r. user_id r = u) (db_rows d)"
  have "\<forall>y \<in> set ?old. - row_id ?new < - row_id y"
    using next_id_above [of _ "ensure_schema d"] by (simp add: db_rows_def)
  then have "sort_key (\<lambda>r. - row_id r) (?old @ [?new]) = ?new # sort_key (\<lambda>r. - row_id r) ?old"
    by (rule sort_key_snoc_least)
  then show ?thesis
    by (simp add: get_last_expense_rows db_rows_add_expense)
qed

lemma delete_expense_just_added:
  "db_rows (snd (delete_expense (add_expense d u it am dt cat) u (next_id (ensure_schema d))))
     = db_rows d"
proof -
  have "\<forall>r \<in> set (db_rows d). row_id r \<noteq> next_id (ensure_schema d)"
    using next_id_above [of _ "ensure_schema d"] by (fastforce simp: db_rows_def)
  then have "filter (\<lambda>r. \<not> (user_id r = u \<and> row_id r = next_id (ensure_schema d))) (db_rows d)
      = db_rows d"
    by (simp add: filter_id_conv)
  then show ?thesis
    by (simp add: db_rows_delete_expense db_rows_add_expense)
qed

lemma delete_expense_just_added_count:
  "fst (delete_expense (add_expense d u it am dt cat) u (next_id (ensure_schema d))) = 1"
proof -
  have "\<forall>r \<in> set (db_rows d). row_id r \<noteq> next_id (ensure_schema d)"
    using next_id_above [of _ "ensure_schema d"] by (fastforce simp: db_rows_def)
  then have "filter (\<lambda>r. user_id r = u \<and> row_id r = next_id (ensure_schema d)) (db_rows d) = []"
    by (simp add: filter_empty_conv)
  then show ?thesis
    by (simp add: fst_delete_expense db_rows_add_expense)
qed

lemma sort_key_head_least:
  assumes "sort_key f xs = r # rest"
  shows "r \<in> set xs \<and> (\<forall>y \<in> set xs. f r \<le> f y)"
proof -
  have "set (sort_key f xs) = set xs" by simp
  then have s: "set xs = insert r (set rest)" using assms by simp
  have "sorted (map f (sort_key f xs))" by simp
  then have "\<forall>y \<in> set rest. f r \<le> f y" using assms by simp
  with s show ?thesis by auto
qed

text \<open>
  Claim C7. \<^verbatim>\<open>get_last_expense\<close> is \<^verbatim>\<open>None\<close> exactly when the user has no row;
  otherwise it is a row of the user and no row of the user has a greater id. After the
  inserts of A and then B it returns B, with the id B was given; deleting B by that id
  removes one row, and then it returns A.
\<close>

theorem last_record:
  "(get_last_expense d u = None \<longleftrightarrow> (\<forall>r \<in> set (db_rows d). user_id r \<noteq> u))
   \<and> (get_last_expense d u = Some (i, it, am, dt, c) \<longrightarrow>
        (\<exists>r \<in> set (db_rows d). user_id r = u \<and> row_id r = i \<and> item r = it \<and> amount r = am
            \<and> date r = dt \<and> category r = c)
        \<and> (\<forall>r \<in> set (db_rows d). user_id r = u \<longrightarrow> row_id r \<le> i))
   \<and> (let dA = add_expense d u itA amA dtA cA;
           iA = next_id (ensure_schema d);
           dB = add_expense dA u itB amB dtB cB;
           iB = next_id (ensure_schema dA)
       in get_last_expense dA u = Some (iA, itA, amA, dtA, cA)
          \<and> get_last_expense dB u = Some (iB, itB, amB, dtB, cB)
          \<and> fst (delete_expense dB u iB) = 1
          \<and> get_last_expense (snd (delete_expense dB u iB)) u = Some (iA, itA, amA, dtA, cA))"
proof (intro conjI)
  let ?us = "filter (\<lambda>r. user_id r = u) (db_rows d)"
  let ?s = "sort_key (\<lambda>r. - row_id r) ?us"
  show "get_last_expense d u = None \<longleftrightarrow> (\<forall>r \<in> set (db_rows d). user_id r \<noteq> u)"
  proof -
    have "get_last_expense d u = None \<longleftrightarrow> ?s = []"
      by (simp add: get_last_expense_rows split: list.split)
    also have "\<dots> \<longleftrightarrow> ?us = []"
      using length_sort [of "\<lambda>r. - row_id r" ?us] by (metis length_0_conv)
    also have "\<dots> \<longleftrightarrow> (\<forall>r \<in> set (db_rows d). user_id r \<noteq> u)"
      by (simp add: filter_empty_conv)
    finally show ?thesis .
  qed
  show "get_last_expense d u = Some (i, it, am, dt, c) \<longrightarrow>
        (\<exists>r \<in> set (db_rows d). user_id r = u \<and> row_id r = i \<and> item r = it \<and> amount r = am
            \<and> date r = dt \<and> category r = c)
        \<and> (\<forall>r \<in> set (db_rows d). user_id r = u \<longrightarrow> row_id r \<le> i)"
  proof
    assume a: "get_last_expense d u = Some (i, it, am, dt, c)"
    then obtain r rest where s: "?s = r # rest"
      and r: "row_id r = i" "item r = it" "amount r = am" "date r = dt" "category r = c"
      by (auto simp: get_last_expense_rows split: list.splits)
    from sort_key_head_least [OF s]
    have m: "r \<in> set ?us" and le: "\<forall>y \<in> set ?us. - row_id r \<le> - row_id y" by blast+
    from m have "r \<in> set (db_rows d)" "user_id r = u" by simp_all
    moreover from le r have "\<forall>y \<in> set (db_rows d). user_id y = u \<longrightarrow> row_id y \<le> i" by simp
    ultimately show "(\<exists>r \<in> set (db_rows d). user_id r = u \<and> row_id r = i \<and> item r = it
            \<and> amount r = am \<and> date r = dt \<and> category r = c)
        \<and> (\<forall>r \<in> set (db_rows d). user_id r = u \<longrightarrow> row_id r \<le> i)"
      using r by blast
  qed
  show "let dA = add_expense d u itA amA dtA cA;
           iA = next_id (ensure_schema d);
           dB = add_expense dA u itB amB dtB cB;
           iB = next_id (ensure_schema dA)
       in get_last_expense dA u = Some (iA, itA, amA, dtA, cA)
          \<and> get_last_expense dB u = Some (iB, itB, amB, dtB, cB)
          \<and> fst (delete_expense dB u iB) = 1
          \<and> get_last_expense (snd (delete_expense dB u iB)) u = Some (iA, itA, amA, dtA, cA)"
    unfolding Let_def
    using get_last_expense_cong [OF delete_expense_just_added]
    by (simp add: get_last_expense_add delete_expense_just_added_count)
qed

theorem last_record_witness:
  "db_rows None = []
   \<and> get_last_expense None 1 = None
   \<and> get_last_expense (add_expense None 1 ''bread'' 5000 ''2024-03-01'' None) 1
       = Some (1, ''bread'', 5000, ''2024-03-01'', None)
   \<and> (\<exists>r \<in> set (db_rows (add_expense None 1 ''bread'' 5000 ''2024-03-01'' None)).
         user_id r = 1 \<and> row_id r = 1 \<and> item r = ''bread'')"
proof -
  let ?d = "add_expense None 1 ''bread'' 5000 ''2024-03-01'' None"
  have h0: "db_rows None = []" by (rule db_rows_fresh)
  then have h1: "\<forall>r \<in> set (db_rows None). user_id r \<noteq> 1" by simp
  from last_record [of None 1] h1 have a: "get_last_expense None 1 = None" by blast
  have h2: "get_last_expense ?d 1 = Some (1, ''bread'', 5000, ''2024-03-01'', None)"
    by (simp add: get_last_expense_add next_id_fresh)
  from last_record [of ?d 1 1 "''bread''" 5000 "''2024-03-01''" None] h2
  have "\<exists>r \<in> set (db_rows ?d). user_id r = 1 \<and> row_id r = 1 \<and> item r = ''bread''
            \<and> amount r = 5000 \<and> date r = ''2024-03-01'' \<and> category r = None"
    by blast
  then have b: "\<exists>r \<in> set (db_rows ?d). user_id r = 1 \<and> row_id r = 1 \<and> item r = ''bread''"
    by blast
  from h0 a h2 b show ?thesis by blast
qed

subsection \<open>Parsing\<close>
















subsection \<open>Month totals are not negative\<close>







subsection \<open>LIKE with a pattern of digits and dashes\<close>
























subsection \<open>Month totals\<close>







subsection \<open>Month totals by category\<close>













end
